theory Spec2Isabelle
  imports Main "HOL-Library.Sublist" "HOL-Library.AList"
begin

section \<open>Python strings\<close>

text \<open>
  A Python \<^verbatim>\<open>str\<close> is modelled as a \<^typ>\<open>string\<close>, a list of 8-bit characters read as
  the code points U+0000 to U+00FF. On these code points \<^verbatim>\<open>str.lower\<close> maps one
  character to one character, and the tables below are the ones of Python 3:
  \<^verbatim>\<open>lower\<close> shifts A-Z and the Latin-1 capitals (0xC0-0xDE without the
  multiplication sign 0xD7) by 32; \<^verbatim>\<open>isalnum\<close> holds for the ASCII digits and letters
  and for the Latin-1 letters, superscript digits and fractions; \<^verbatim>\<open>isspace\<close> holds
  for 0x09-0x0D, 0x1C-0x20, 0x85 and 0xA0.
\<close>

definition lower_char :: "char \<Rightarrow> char" where
  "lower_char c = (let n = (of_char c :: nat) in
     if (65 \<le> n \<and> n \<le> 90) \<or> (192 \<le> n \<and> n \<le> 222 \<and> n \<noteq> 215)
     then char_of (n + 32) else c)"

definition lower :: "string \<Rightarrow> string" where
  "lower s = map lower_char s"

definition isalnum :: "char \<Rightarrow> bool" where
  "isalnum c = (let n = (of_char c :: nat) in
     (48 \<le> n \<and> n \<le> 57) \<or> (65 \<le> n \<and> n \<le> 90) \<or> (97 \<le> n \<and> n \<le> 122) \<or>
     n = 170 \<or> n = 178 \<or> n = 179 \<or> n = 181 \<or> n = 185 \<or> n = 186 \<or>
     (188 \<le> n \<and> n \<le> 190) \<or> (192 \<le> n \<and> n \<le> 214) \<or>
     (216 \<le> n \<and> n \<le> 246) \<or> (248 \<le> n \<and> n \<le> 255))"

definition isspace :: "char \<Rightarrow> bool" where
  "isspace c = (let n = (of_char c :: nat) in
     (9 \<le> n \<and> n \<le> 13) \<or> (28 \<le> n \<and> n \<le> 32) \<or> n = 133 \<or> n = 160)"

text \<open>\<^verbatim>\<open>s.strip()\<close>: drop the whitespace at both ends.\<close>

definition strip :: "string \<Rightarrow> string" where
  "strip s = rev (dropWhile isspace (rev (dropWhile isspace s)))"

text \<open>\<^verbatim>\<open>s.replace(" ", "_")\<close>: only the space character U+0020 is replaced.\<close>

definition replace_space :: "string \<Rightarrow> string" where
  "replace_space s = map (\<lambda>c. if c = CHR '' '' then CHR ''_'' else c) s"

text \<open>\<^verbatim>\<open>sub in s\<close> on strings: \<^verbatim>\<open>sub\<close> occurs in \<^verbatim>\<open>s\<close> as a contiguous block.\<close>

fun str_in :: "string \<Rightarrow> string \<Rightarrow> bool" where
  "str_in sub [] = (sub = [])"
| "str_in sub (c # cs) = (prefix sub (c # cs) \<or> str_in sub cs)"

text \<open>\<^verbatim>\<open>s.startswith(p)\<close> is \<^const>\<open>prefix\<close> and \<^verbatim>\<open>s.endswith(p)\<close> is \<^const>\<open>suffix\<close>.\<close>

text \<open>\<^verbatim>\<open>sep.join(parts)\<close>.\<close>

fun join :: "string \<Rightarrow> string list \<Rightarrow> string" where
  "join sep [] = []"
| "join sep [p] = p"
| "join sep (p # q # ps) = p @ sep @ join sep (q # ps)"

text \<open>\<^verbatim>\<open>d.get(key, default)\<close> on a dictionary with string values.\<close>

definition dict_get :: "('k \<rightharpoonup> 'v) \<Rightarrow> 'k \<Rightarrow> 'v \<Rightarrow> 'v" where
  "dict_get d k dflt = (case d k of None \<Rightarrow> dflt | Some v \<Rightarrow> v)"

section \<open>Breadcrumb resolver (\<^verbatim>\<open>wikivoyage_fetcher.py\<close>)\<close>

text \<open>
  A breadcrumb item is a \<^verbatim>\<open>Dict[str, str]\<close> with the keys \<^verbatim>\<open>name\<close>, \<^verbatim>\<open>url\<close> and
  \<^verbatim>\<open>page_name\<close>. A key whose value is \<^verbatim>\<open>None\<close> is modelled as an absent key: the
  two functions below read only \<^verbatim>\<open>name\<close> and skip the item in both cases.
\<close>

type_synonym crumb = "string \<rightharpoonup> string"

text \<open>The character filter of \<^verbatim>\<open>_normalize_breadcrumb_path\<close>:
  \<^verbatim>\<open>c.isalnum() or c in ['_', '-']\<close>.\<close>

definition path_char :: "char \<Rightarrow> bool" where
  "path_char c = (isalnum c \<or> c \<in> set [CHR ''_'', CHR ''-''])"

text \<open>The normalisation of one name: lowercase, spaces to underscores, then the filter.\<close>

definition normalize_name :: "string \<Rightarrow> string" where
  "normalize_name name = filter path_char (replace_space (lower name))"

text \<open>The \<^verbatim>\<open>for crumb in breadcrumbs\<close> loop, returning the \<^verbatim>\<open>path_parts\<close> it collects.\<close>

fun path_parts :: "crumb list \<Rightarrow> string list" where
  "path_parts [] = []"
| "path_parts (crumb # rest) =
     (let name = dict_get crumb ''name'' '''' in
      if name \<noteq> '''' then
        (let normalized = normalize_name name in
         if normalized \<noteq> '''' then normalized # path_parts rest else path_parts rest)
      else path_parts rest)"

definition normalize_breadcrumb_path :: "crumb list \<Rightarrow> string" where
  "normalize_breadcrumb_path breadcrumbs =
     (if breadcrumbs = [] then ''''
      else (let parts = path_parts breadcrumbs in
            if parts = [] then '''' else join ''/'' parts))"

definition region_keywords :: "string list" where
  "region_keywords =
     [''europe'', ''asia'', ''america'', ''africa'', ''oceania'',
      ''central europe'', ''western europe'', ''eastern europe'', ''southern europe'',
      ''northern europe'',
      ''southeast asia'', ''east asia'', ''south asia'', ''central asia'', ''middle east'',
      ''north america'', ''south america'', ''central america'', ''caribbean'',
      ''east africa'', ''west africa'', ''southern africa'', ''north africa'']"

definition admin_keywords :: "string list" where
  "admin_keywords =
     [''voivodeship'', ''voivodship'', ''oblast'', ''state'', ''province'', ''region'',
      ''county'', ''prefecture'', ''governorate'', ''autonomous region'']"

definition polish_suffixes :: "string list" where
  "polish_suffixes = [''skie'', ''ckie'', ''zkie'']"

definition direction_words :: "string list" where
  "direction_words =
     [''lower'', ''upper'', ''greater'', ''lesser'', ''north'', ''south'', ''east'', ''west'']"

definition is_administrative_region :: "string \<Rightarrow> bool" where
  "is_administrative_region name =
     (let name_lower = lower name in
      if list_ex (\<lambda>keyword. str_in keyword name_lower) admin_keywords then True
      else if list_ex (\<lambda>sfx. suffix sfx name_lower) polish_suffixes then True
      else if list_ex (\<lambda>word. str_in word name_lower) direction_words
              \<and> \<not> list_ex (\<lambda>keyword. str_in keyword name_lower) region_keywords then True
      else False)"

text \<open>
  The loop \<^verbatim>\<open>for i in range(len(breadcrumb_names) - 1, -1, -1)\<close>, given the names in
  the order the loop visits them (last name first).
\<close>

fun scan_country :: "string list \<Rightarrow> string option" where
  "scan_country [] = None"
| "scan_country (n # ns) =
     (let name = lower n in
      if list_ex (\<lambda>keyword. str_in keyword name) region_keywords then scan_country ns
      else if is_administrative_region n then scan_country ns
      else Some n)"

text \<open>\<^verbatim>\<open>breadcrumbs[:-1]\<close> is \<^const>\<open>butlast\<close>; \<^verbatim>\<open>current_query\<close> is not read by the code.\<close>

definition detect_country_from_breadcrumbs :: "crumb list \<Rightarrow> string \<Rightarrow> string option" where
  "detect_country_from_breadcrumbs breadcrumbs current_query =
     (if breadcrumbs = [] \<or> length breadcrumbs < 2 then None
      else (let breadcrumb_names =
                  map (\<lambda>crumb. dict_get crumb ''name'' '''')
                      (filter (\<lambda>crumb. dict_get crumb ''name'' '''' \<noteq> '''') (butlast breadcrumbs)) in
            if breadcrumb_names = [] then None
            else scan_country (rev breadcrumb_names)))"

definition example_chain :: "crumb list" where
  "example_chain =
     [[''name'' \<mapsto> ''Europe''], [''name'' \<mapsto> ''Central Europe''], [''name'' \<mapsto> ''Poland'']]"

subsection \<open>The path normalisation in the words of the specification\<close>

text \<open>
  The specification describes \<^verbatim>\<open>normalizeBreadcrumbPath\<close> as: lowercase each segment,
  replace whitespace with underscores, strip the characters that are not alphanumeric,
  underscore or hyphen, join the segments with a slash. The definition below follows
  these words, to be compared with \<^const>\<open>normalize_breadcrumb_path\<close>.
\<close>

definition whitespace_to_underscore :: "string \<Rightarrow> string" where
  "whitespace_to_underscore s = map (\<lambda>c. if isspace c then CHR ''_'' else c) s"

definition spec_normalize_breadcrumb_path :: "crumb list \<Rightarrow> string" where
  "spec_normalize_breadcrumb_path breadcrumbs =
     join ''/'' (map (\<lambda>crumb. filter path_char
                        (whitespace_to_underscore (lower (dict_get crumb ''name'' ''''))))
                 breadcrumbs)"

section \<open>Relationship classifier\<close>

text \<open>
  \<^verbatim>\<open>_detect_relationship_type\<close> is a sequence of \<^verbatim>\<open>if\<close> blocks, each of which
  either returns or falls through to the next one. Each block is a function to
  \<^typ>\<open>string option\<close>, \<^const>\<open>None\<close> being the fall-through.
\<close>

definition cities_block :: "string \<Rightarrow> string \<Rightarrow> string \<Rightarrow> string option" where
  "cities_block parent_type child_type section_lower =
     (if section_lower \<in> set [''cities'', ''cities and towns'', ''municipalities''] then
        (if parent_type = ''country'' \<and> child_type = ''city'' then Some ''contains''
         else if parent_type = ''region'' \<and> child_type = ''city'' then Some ''contains''
         else None)
      else None)"

definition regions_block :: "string \<Rightarrow> string \<Rightarrow> string \<Rightarrow> string option" where
  "regions_block parent_type child_type section_lower =
     (if section_lower \<in> set [''regions'', ''subregions''] then
        (if parent_type = ''country'' \<and> child_type = ''region'' then Some ''contains''
         else if parent_type = ''region'' \<and> child_type = ''region'' then Some ''part_of''
         else None)
      else None)"

definition detect_relationship_type :: "string \<Rightarrow> string \<Rightarrow> string \<Rightarrow> string" where
  "detect_relationship_type parent_type child_type section =
     (let section_lower = lower section in
      case cities_block parent_type child_type section_lower of
        Some r \<Rightarrow> r
      | None \<Rightarrow>
      (case regions_block parent_type child_type section_lower of
        Some r \<Rightarrow> r
      | None \<Rightarrow>
        if section_lower = ''other destinations'' then ''contains''
        else if parent_type = ''country'' \<and> child_type \<in> set [''city'', ''region'', ''destination'']
          then ''contains''
        else if child_type = ''city'' \<and> parent_type = ''country'' then ''located_in''
        else ''related_to''))"

text \<open>The section names that the first three blocks know.\<close>

definition known_sections :: "string list" where
  "known_sections =
     [''cities'', ''cities and towns'', ''municipalities'', ''regions'', ''subregions'',
      ''other destinations'']"

section \<open>Node classifier\<close>

text \<open>
  \<^verbatim>\<open>parsed_data\<close> is the dictionary that \<^verbatim>\<open>_parse_wikivoyage_html\<close> builds. The
  classifier reads \<^verbatim>\<open>metadata.sections\<close> (section slug to section text),
  \<^verbatim>\<open>metadata.regions\<close> and \<^verbatim>\<open>metadata.cities\<close> (lists of list items) and
  \<^verbatim>\<open>coordinates\<close> (a dictionary with \<^verbatim>\<open>lat\<close> and \<^verbatim>\<open>lon\<close>, or \<^verbatim>\<open>None\<close>). The
  dictionary of \<^verbatim>\<open>_basic_parse\<close> has no \<^verbatim>\<open>metadata\<close> key: \<^const>\<open>None\<close> below. Every
  value is read for its truth value only: a string or a list is true when it is not
  empty, a missing key gives \<^verbatim>\<open>None\<close>, which is false, and a coordinates dictionary,
  which always has its two keys, is true.
\<close>

record page_metadata =
  md_sections :: "string \<rightharpoonup> string"
  md_regions :: "string list"
  md_cities :: "string list"

record 'c parsed_data =
  pd_metadata :: "page_metadata option"
  pd_coordinates :: "'c option"

definition empty_metadata :: page_metadata where
  "empty_metadata = \<lparr>md_sections = Map.empty, md_regions = [], md_cities = []\<rparr>"

text \<open>The truth value of \<^verbatim>\<open>sections.get(key)\<close>.\<close>

definition has_section :: "(string \<rightharpoonup> string) \<Rightarrow> string \<Rightarrow> bool" where
  "has_section sections key = (case sections key of None \<Rightarrow> False | Some text \<Rightarrow> text \<noteq> '''')"

definition detect_node_type :: "string \<Rightarrow> 'c parsed_data \<Rightarrow> string" where
  "detect_node_type query parsed =
     (let metadata = (case pd_metadata parsed of None \<Rightarrow> empty_metadata | Some m \<Rightarrow> m);
          sections = md_sections metadata in
      if has_section sections ''regions'' \<or> has_section sections ''cities''
         \<or> md_regions metadata \<noteq> [] \<or> md_cities metadata \<noteq> [] then ''country''
      else if has_section sections ''get_in'' \<or> has_section sections ''get_around'' then
        (if has_section sections ''see'' \<or> has_section sections ''do''
            \<or> has_section sections ''eat'' then ''city''
         else ''destination'')
      else if pd_coordinates parsed \<noteq> None \<and> \<not> has_section sections ''get_in'' then ''attraction''
      else if (has_section sections ''see'' \<or> has_section sections ''do'')
              \<and> \<not> (has_section sections ''regions'' \<or> has_section sections ''cities''
                   \<or> md_regions metadata \<noteq> [] \<or> md_cities metadata \<noteq> []) then ''region''
      else ''destination'')"

section \<open>Global graph merge (\<^verbatim>\<open>utils/file_manager.py\<close>)\<close>

text \<open>
  Nodes, edges and the graph metadata are Python dictionaries with string keys whose
  values are written to and read from a JSON file. The type \<open>pyval\<close> has the values that
  survive this round trip unchanged: \<^verbatim>\<open>None\<close>, booleans, integers, strings, lists, and
  dictionaries with string keys. A dictionary is an association list in insertion order,
  as Python keeps it; \<^verbatim>\<open>d.get(k)\<close> is \<^verbatim>\<open>None\<close> for a missing key.
\<close>

datatype pyval =
    PNone
  | PBool bool
  | PInt int
  | PStr string
  | PList "pyval list"
  | PDict "(string \<times> pyval) list"

type_synonym pydict = "(string \<times> pyval) list"

definition py_get :: "pydict \<Rightarrow> string \<Rightarrow> pyval" where
  "py_get d k = (case map_of d k of None \<Rightarrow> PNone | Some v \<Rightarrow> v)"

text \<open>The truth value of a Python value, as \<^verbatim>\<open>if node_id\<close> reads it.\<close>

fun truthy :: "pyval \<Rightarrow> bool" where
  "truthy PNone = False"
| "truthy (PBool b) = b"
| "truthy (PInt i) = (i \<noteq> 0)"
| "truthy (PStr s) = (s \<noteq> '''')"
| "truthy (PList xs) = (xs \<noteq> [])"
| "truthy (PDict kvs) = (kvs \<noteq> [])"

text \<open>
  A value used as a dictionary key is hashed: lists and dictionaries raise
  \<^verbatim>\<open>TypeError\<close>. Two keys are the same key when Python's \<^verbatim>\<open>==\<close> holds, and
  \<^verbatim>\<open>True == 1\<close>, \<^verbatim>\<open>False == 0\<close>: \<^const>\<open>PBool\<close> keys are stored as the integer they equal.
\<close>

fun hashable :: "pyval \<Rightarrow> bool" where
  "hashable (PList xs) = False"
| "hashable (PDict kvs) = False"
| "hashable v = True"

fun hkey :: "pyval \<Rightarrow> pyval" where
  "hkey (PBool b) = PInt (if b then 1 else 0)"
| "hkey v = v"

datatype error = TypeError

text \<open>
  The graph file: \<^verbatim>\<open>{"nodes": [...], "edges": [...], "metadata": {...}}\<close>. The function
  reads \<^verbatim>\<open>graph_data["nodes"]\<close>, \<^verbatim>\<open>graph_data["edges"]\<close> and
  \<^verbatim>\<open>graph_data["metadata"]\<close> of an existing file, so a file that lacks one of them makes
  every merge fail; such files are outside the model.
\<close>

record graph =
  g_nodes :: "pydict list"
  g_edges :: "pydict list"
  g_metadata :: pydict

text \<open>
  \<^verbatim>\<open>existing_nodes\<close> maps a node id to a node and \<^verbatim>\<open>existing_edges\<close> maps a
  \<^verbatim>\<open>(source, target, type)\<close> tuple to an edge.
\<close>

type_synonym node_index = "pyval \<rightharpoonup> pydict"
type_synonym edge_index = "(pyval \<times> pyval \<times> pyval) \<rightharpoonup> pydict"

text \<open>\<^verbatim>\<open>{node.get("id"): node for node in graph_data.get("nodes", [])}\<close>\<close>

fun index_nodes :: "pydict list \<Rightarrow> node_index \<Rightarrow> error + node_index" where
  "index_nodes [] existing = Inr existing"
| "index_nodes (node # rest) existing =
     (let node_id = py_get node ''id'' in
      if hashable node_id then index_nodes rest (existing(hkey node_id \<mapsto> node))
      else Inl TypeError)"

text \<open>\<^verbatim>\<open>(edge.get("source"), edge.get("target"), edge.get("type"))\<close>\<close>

definition edge_parts :: "pydict \<Rightarrow> pyval \<times> pyval \<times> pyval" where
  "edge_parts edge = (py_get edge ''source'', py_get edge ''target'', py_get edge ''type'')"

fun hashable_key :: "pyval \<times> pyval \<times> pyval \<Rightarrow> bool" where
  "hashable_key (s, t, ty) = (hashable s \<and> hashable t \<and> hashable ty)"

fun hkey3 :: "pyval \<times> pyval \<times> pyval \<Rightarrow> pyval \<times> pyval \<times> pyval" where
  "hkey3 (s, t, ty) = (hkey s, hkey t, hkey ty)"

fun index_edges :: "pydict list \<Rightarrow> edge_index \<Rightarrow> error + edge_index" where
  "index_edges [] existing = Inr existing"
| "index_edges (edge # rest) existing =
     (let edge_key = edge_parts edge in
      if hashable_key edge_key then index_edges rest (existing(hkey3 edge_key \<mapsto> edge))
      else Inl TypeError)"

text \<open>
  The loop \<^verbatim>\<open>for node in nodes\<close>. Its state is \<^verbatim>\<open>graph_data["nodes"]\<close> and
  \<^verbatim>\<open>existing_nodes\<close>. In \<^verbatim>\<open>node_id and node_id not in existing_nodes\<close> the membership
  test, which hashes the id, runs only for a true id.
\<close>

fun add_nodes :: "pydict list \<Rightarrow> pydict list \<times> node_index \<Rightarrow> error + pydict list \<times> node_index" where
  "add_nodes [] st = Inr st"
| "add_nodes (node # rest) (graph_nodes, existing) =
     (let node_id = py_get node ''id'' in
      if truthy node_id then
        (if \<not> hashable node_id then Inl TypeError
         else if existing (hkey node_id) = None then
           add_nodes rest (graph_nodes @ [node], existing(hkey node_id \<mapsto> node))
         else add_nodes rest (graph_nodes, existing))
      else add_nodes rest (graph_nodes, existing))"

text \<open>The loop \<^verbatim>\<open>for edge in edges\<close>.\<close>

fun add_edges :: "pydict list \<Rightarrow> pydict list \<times> edge_index \<Rightarrow> error + pydict list \<times> edge_index" where
  "add_edges [] st = Inr st"
| "add_edges (edge # rest) (graph_edges, existing) =
     (let edge_key = edge_parts edge in
      if \<not> hashable_key edge_key then Inl TypeError
      else if existing (hkey3 edge_key) = None then
        add_edges rest (graph_edges @ [edge], existing(hkey3 edge_key \<mapsto> edge))
      else add_edges rest (graph_edges, existing))"

text \<open>The graph of the \<^verbatim>\<open>else\<close> branch, when the file does not exist.\<close>

definition new_graph :: "string \<Rightarrow> graph" where
  "new_graph source =
     \<lparr>g_nodes = [], g_edges = [],
      g_metadata = [(''source'', PStr source), (''node_count'', PInt 0), (''edge_count'', PInt 0)]\<rparr>"

text \<open>
  Reading the file: \<^const>\<open>None\<close> is the file that does not exist. The result is
  \<^verbatim>\<open>graph_data\<close>, \<^verbatim>\<open>existing_nodes\<close> and \<^verbatim>\<open>existing_edges\<close>.
\<close>

definition load_graph ::
  "graph option \<Rightarrow> string \<Rightarrow> error + graph \<times> node_index \<times> edge_index" where
  "load_graph file source =
     (case file of
        Some graph_data \<Rightarrow>
          (case index_nodes (g_nodes graph_data) Map.empty of
             Inl e \<Rightarrow> Inl e
           | Inr existing_nodes \<Rightarrow>
               (case index_edges (g_edges graph_data) Map.empty of
                  Inl e \<Rightarrow> Inl e
                | Inr existing_edges \<Rightarrow> Inr (graph_data, existing_nodes, existing_edges)))
      | None \<Rightarrow> Inr (new_graph source, Map.empty, Map.empty))"

text \<open>
  \<^verbatim>\<open>update_global_graph\<close>, as a function from the content of \<^verbatim>\<open>source/graph.json\<close>
  before the call to its content after the call. The file is written in the last
  statement, so a call that raises leaves the file as it was: \<^const>\<open>Inl\<close>. Assigning
  \<^verbatim>\<open>metadata["node_count"]\<close> is \<^const>\<open>AList.update\<close>: an existing key keeps its place, a
  new key goes to the end.
\<close>

definition update_global_graph ::
  "graph option \<Rightarrow> string \<Rightarrow> pydict list \<Rightarrow> pydict list \<Rightarrow> error + graph" where
  "update_global_graph file source nodes edges =
     (case load_graph file source of
        Inl e \<Rightarrow> Inl e
      | Inr (graph_data, existing_nodes, existing_edges) \<Rightarrow>
          (case add_nodes nodes (g_nodes graph_data, existing_nodes) of
             Inl e \<Rightarrow> Inl e
           | Inr (graph_nodes, _) \<Rightarrow>
               (case add_edges edges (g_edges graph_data, existing_edges) of
                  Inl e \<Rightarrow> Inl e
                | Inr (graph_edges, _) \<Rightarrow>
                    Inr \<lparr>g_nodes = graph_nodes, g_edges = graph_edges,
                         g_metadata =
                           AList.update ''edge_count'' (PInt (int (length graph_edges)))
                             (AList.update ''node_count'' (PInt (int (length graph_nodes)))
                                (g_metadata graph_data))\<rparr>)))"

text \<open>
  A sequence of merges on one file, each with its own source name and batch. A merge that
  raises leaves the file unchanged, and the next merge reads that file.
\<close>

fun merge_all :: "graph option \<Rightarrow> (string \<times> pydict list \<times> pydict list) list \<Rightarrow> graph option" where
  "merge_all file [] = file"
| "merge_all file ((source, nodes, edges) # batches) =
     (case update_global_graph file source nodes edges of
        Inl e \<Rightarrow> merge_all file batches
      | Inr graph_data \<Rightarrow> merge_all (Some graph_data) batches)"

definition file_nodes :: "graph option \<Rightarrow> pydict list" where
  "file_nodes file = (case file of None \<Rightarrow> [] | Some g \<Rightarrow> g_nodes g)"

definition file_edges :: "graph option \<Rightarrow> pydict list" where
  "file_edges file = (case file of None \<Rightarrow> [] | Some g \<Rightarrow> g_edges g)"

text \<open>A node and an edge as the dictionary keys under which the merge stores them.\<close>

definition node_key :: "pydict \<Rightarrow> pyval" where
  "node_key node = hkey (py_get node ''id'')"

definition edge_key :: "pydict \<Rightarrow> pyval \<times> pyval \<times> pyval" where
  "edge_key edge = hkey3 (edge_parts edge)"

text \<open>A node whose \<^verbatim>\<open>id\<close> key is missing, \<^verbatim>\<open>None\<close> or the empty string.\<close>

definition id_missing_none_or_empty :: "pydict \<Rightarrow> bool" where
  "id_missing_none_or_empty node =
     (map_of node ''id'' = None \<or> map_of node ''id'' = Some PNone
      \<or> map_of node ''id'' = Some (PStr ''''))"

text \<open>Example data: two nodes, a second node with the id of Warsaw, a node with an empty
  id, an edge, and the graph file that the first merge of them writes.\<close>

definition example_poland :: pydict where
  "example_poland =
     [(''id'', PStr ''wikivoyage_en_poland''), (''name'', PStr ''poland''), (''type'', PStr ''country'')]"

definition example_warsaw :: pydict where
  "example_warsaw =
     [(''id'', PStr ''wikivoyage_en_warsaw''), (''name'', PStr ''warsaw''), (''type'', PStr ''city'')]"

definition example_warsaw_again :: pydict where
  "example_warsaw_again =
     [(''id'', PStr ''wikivoyage_en_warsaw''), (''name'', PStr ''warszawa''), (''type'', PStr ''city'')]"

definition example_idless :: pydict where
  "example_idless = [(''id'', PStr ''''), (''name'', PStr ''nowhere'')]"

definition example_edge :: pydict where
  "example_edge =
     [(''source'', PStr ''wikivoyage_en_poland''), (''target'', PStr ''wikivoyage_en_warsaw''),
      (''type'', PStr ''contains'')]"

definition example_graph :: graph where
  "example_graph =
     \<lparr>g_nodes = [example_poland, example_warsaw], g_edges = [example_edge],
      g_metadata = [(''source'', PStr ''wikivoyage_en''), (''node_count'', PInt 2),
                    (''edge_count'', PInt 1)]\<rparr>"

section \<open>Recursive fetch orchestrator\<close>

text \<open>
  \<^verbatim>\<open>_fetch_linked_pages_recursive\<close>, reduced to what decides which pages are requested:
  the depth test, the loop over \<^verbatim>\<open>page_names\<close>, the normalisation of the name, the test
  and the update of \<^verbatim>\<open>visited\<close>, the two requests that the loop body makes, and the
  recursive call with the same \<^verbatim>\<open>visited\<close> set. The nodes, the edges and the files
  written for a page do not influence any of these and are left out.

  The loop body requests \<^verbatim>\<open>{BASE_URL}/page/html/{page_name_normalized}\<close>, and, when the
  answer has no breadcrumbs, \<^verbatim>\<open>https://{language}.wikivoyage.org/wiki/{page_name_normalized}\<close>
  for the same page name.
\<close>

datatype request = ContentRequest string | FullPageRequest string

text \<open>
  What follows the first request of one page is a \<open>response\<close>:
  \<^item> \<open>NoResponse\<close>: \<^verbatim>\<open>_make_request\<close> returned \<^verbatim>\<open>None\<close> and the loop continues;
  \<^item> \<open>Failed full_page\<close>: an exception was raised between the first request and the
    recursive call; the \<^verbatim>\<open>except\<close> clause prints a warning and the loop continues;
  \<^item> \<open>Page full_page child_all_links\<close>: the page was parsed, and \<^verbatim>\<open>child_all_links\<close>
    are the links of its level 2 sections without duplicates, in the order in which
    \<^verbatim>\<open>list(set(...))\<close> lists them (empty when the page has no main content).
  The flag \<open>full_page\<close> says that the answer had no breadcrumbs, so that the full page
  was requested as well (in \<open>Failed\<close>: before the exception). What the second request
  returns changes the breadcrumb path only. The site is a function from the requests made
  so far and the name requested now to the response, so the same page may answer
  differently when asked again.
\<close>

datatype response = NoResponse | Failed bool | Page bool "string list"

type_synonym web = "request list \<Rightarrow> string \<Rightarrow> response"

text \<open>The state of a run: the \<^verbatim>\<open>visited\<close> set, and the requests made so far, in their
  order.\<close>

record crawl =
  visited :: "string set"
  fetched :: "request list"

text \<open>The request of the full page, when it is made.\<close>

definition request_full_page :: "bool \<Rightarrow> string \<Rightarrow> crawl \<Rightarrow> crawl" where
  "request_full_page full_page page_name_normalized st =
     (if full_page then st\<lparr>fetched := fetched st @ [FullPageRequest page_name_normalized]\<rparr>
      else st)"

text \<open>
  The \<^verbatim>\<open>for\<close> loop is a \<^const>\<open>fold\<close> over \<^verbatim>\<open>page_names\<close>; \<^verbatim>\<open>continue\<close> returns the
  state. The depths are Python integers.
\<close>

function fetch_linked_pages_recursive ::
  "web \<Rightarrow> int \<Rightarrow> int \<Rightarrow> string list \<Rightarrow> crawl \<Rightarrow> crawl" where
  "fetch_linked_pages_recursive web max_depth current_depth page_names st =
     (if current_depth \<ge> max_depth then st
      else fold (\<lambda>page_name st.
        let page_name_normalized = replace_space page_name in
        if page_name_normalized \<in> visited st then st
        else
          (let st = st\<lparr>visited := insert page_name_normalized (visited st)\<rparr>;
               response = web (fetched st) page_name_normalized;
               st = st\<lparr>fetched := fetched st @ [ContentRequest page_name_normalized]\<rparr> in
           case response of
             NoResponse \<Rightarrow> st
           | Failed full_page \<Rightarrow> request_full_page full_page page_name_normalized st
           | Page full_page child_all_links \<Rightarrow>
               (let st = request_full_page full_page page_name_normalized st in
                if current_depth < max_depth - 1 \<and> child_all_links \<noteq> [] then
                  fetch_linked_pages_recursive web max_depth (current_depth + 1)
                    child_all_links st
                else st)))
        page_names st)"
  by pat_completeness auto
termination
  by (relation "measure (\<lambda>(web, max_depth, current_depth, page_names, st).
        nat (max_depth - current_depth))") auto

declare fetch_linked_pages_recursive.simps [simp del]

text \<open>\<^verbatim>\<open>fetch_country_info\<close> starts the recursion with \<^verbatim>\<open>visited=set()\<close>, after it has
  requested the root page itself.\<close>

definition initial_crawl :: crawl where
  "initial_crawl = \<lparr>visited = {}, fetched = []\<rparr>"

text \<open>
  The page name under the normalisation that the specification names, insensitive to case
  and to the difference between a space and an underscore.
\<close>

definition spec_page_key :: "string \<Rightarrow> string" where
  "spec_page_key name = lower (replace_space name)"

text \<open>
  The two other places where the code identifies a page by its name.
  \<^verbatim>\<open>_generate_query_id\<close> returns the start of the SHA-256 digest of
  \<^verbatim>\<open>query.lower().strip()\<close>, from which the node id is built; the string that is hashed
  is \<open>query_id_key\<close>. \<^verbatim>\<open>save_html_file\<close> and the other writers of
  \<^verbatim>\<open>file_manager.py\<close> name the files of a page \<^verbatim>\<open>query.lower().replace(" ", "_")\<close>.
\<close>

definition query_id_key :: "string \<Rightarrow> string" where
  "query_id_key query = strip (lower query)"

definition query_safe :: "string \<Rightarrow> string" where
  "query_safe query = replace_space (lower query)"

text \<open>Three example sites. On the first, every page has no breadcrumbs in its first
  answer and no links. On the second, Warsaw links back to Poland. The third is a small
  site with links between its pages.\<close>

definition leaf_pages_web :: web where
  "leaf_pages_web history name = Page True []"

definition link_back_web :: web where
  "link_back_web history name =
     (if name = ''Warsaw'' then Page True [''Poland''] else Page True [])"

definition example_web :: web where
  "example_web history name =
     (if name = ''Warsaw'' then Page True [''Lazienki Park'', ''Krakow'']
      else if name = ''Krakow'' then Page False [''Wawel'', ''Warsaw'', ''Lazienki_Park'']
      else if name = ''Gdansk'' then NoResponse
      else Page True [])"

text \<open>The names of the first requests, and of the second requests, in a list of requests.\<close>

fun content_names :: "request list \<Rightarrow> string list" where
  "content_names [] = []"
| "content_names (ContentRequest name # rest) = name # content_names rest"
| "content_names (FullPageRequest name # rest) = content_names rest"

fun full_page_names :: "request list \<Rightarrow> string list" where
  "full_page_names [] = []"
| "full_page_names (ContentRequest name # rest) = full_page_names rest"
| "full_page_names (FullPageRequest name # rest) = name # full_page_names rest"

text \<open>
  What the visited set does achieve, as an invariant of a run: the names of the first
  requests are pairwise distinct and free of spaces, \<^verbatim>\<open>visited\<close> holds the names it held
  before the run and these names, the two kept apart, and the second requests are for
  names that had a first request, no name twice.
\<close>

definition fetch_once :: "string set \<Rightarrow> crawl \<Rightarrow> bool" where
  "fetch_once before st =
     (distinct (content_names (fetched st))
      \<and> visited st = before \<union> set (content_names (fetched st))
      \<and> before \<inter> set (content_names (fetched st)) = {}
      \<and> list_all (\<lambda>name. replace_space name = name) (content_names (fetched st))
      \<and> distinct (full_page_names (fetched st))
      \<and> set (full_page_names (fetched st)) \<subseteq> set (content_names (fetched st)))"

section \<open>Section extractor and link extractor: locating the heading\<close>

text \<open>
  The page body is modelled for pages without \<^verbatim>\<open><section>\<close> wrappers, where
  \<^verbatim>\<open>heading.find_parent('section')\<close> is \<^verbatim>\<open>None\<close> and the code walks the siblings of the
  heading: the children of \<^verbatim>\<open>main_content\<close> are a list of elements. An element is a tag
  with its name (a heading also with its \<^verbatim>\<open>id\<close> attribute and its text), or a string
  between tags. \<open>Other name\<close> is a tag that is none of the others.
\<close>

datatype dl_child = Dt string | Dd string | DlOther

datatype element =
    Heading string "string option" string
  | P string
  | UL "string list"
  | DL "dl_child list"
  | Other string
  | NavigableString string

text \<open>
  The parts of the section content. The code renders a list item with a bullet (U+2022)
  in front and a definition as \<^verbatim>\<open>term: definition\<close>, and returns the parts joined by
  newlines; every part is a non-empty string, so the returned string is empty exactly
  when there is no part.
\<close>

datatype content_part = Text string | Bullet string | Definition string string

datatype parse_error = ValueError | IndexError

text \<open>\<^verbatim>\<open>find_all(['h2', 'h3', 'h4'])\<close> and the first heading, in document order, that
  a test on its \<^verbatim>\<open>id\<close> and text accepts, together with its following siblings.\<close>

fun find_heading ::
  "(string option \<Rightarrow> string \<Rightarrow> bool) \<Rightarrow> element list \<Rightarrow> (string \<times> element list) option" where
  "find_heading accept [] = None"
| "find_heading accept (Heading tag hid text # rest) =
     (if tag \<in> set [''h2'', ''h3'', ''h4''] \<and> accept hid text then Some (tag, rest)
      else find_heading accept rest)"
| "find_heading accept (e # rest) = find_heading accept rest"

text \<open>\<^verbatim>\<open>int(name[1])\<close> for a tag name: the digit after the first character.\<close>

definition tag_level :: "string \<Rightarrow> parse_error + nat" where
  "tag_level name =
     (case name of
        c0 # c1 # cs \<Rightarrow>
          (let n = (of_char c1 :: nat) in
           if 48 \<le> n \<and> n \<le> 57 then Inr (n - 48) else Inl ValueError)
      | _ \<Rightarrow> Inl IndexError)"

text \<open>The tag name of an element that is a tag.\<close>

definition element_name :: "element \<Rightarrow> string" where
  "element_name e =
     (case e of
        Heading tag hid text \<Rightarrow> tag
      | P text \<Rightarrow> ''p''
      | UL items \<Rightarrow> ''ul''
      | DL children \<Rightarrow> ''dl''
      | Other name \<Rightarrow> name
      | NavigableString s \<Rightarrow> [])"

text \<open>\<^verbatim>\<open>dt.find_next_sibling('dd')\<close> among the children of the list after the term.\<close>

fun find_next_dd :: "dl_child list \<Rightarrow> string option" where
  "find_next_dd [] = None"
| "find_next_dd (Dd d # rest) = Some d"
| "find_next_dd (c # rest) = find_next_dd rest"

fun definition_parts :: "dl_child list \<Rightarrow> content_part list" where
  "definition_parts [] = []"
| "definition_parts (Dt t # rest) =
     (case find_next_dd rest of
        Some d \<Rightarrow> Definition (strip t) (strip d) # definition_parts rest
      | None \<Rightarrow> definition_parts rest)"
| "definition_parts (c # rest) = definition_parts rest"

text \<open>The parts that one sibling contributes.\<close>

definition element_parts :: "element \<Rightarrow> content_part list" where
  "element_parts e =
     (case e of
        P text \<Rightarrow> (if strip text \<noteq> '''' then [Text (strip text)] else [])
      | UL items \<Rightarrow> map Bullet (filter (\<lambda>t. t \<noteq> '''') (map strip items))
      | DL children \<Rightarrow> definition_parts children
      | _ \<Rightarrow> [])"

text \<open>
  The \<^verbatim>\<open>while current\<close> loop over the siblings after the heading. A tag is true; a
  string between tags is true when it is not empty, and has no tag name. A tag whose name
  starts with \<^verbatim>\<open>h\<close> is read as a heading level, which raises for names such as
  \<^verbatim>\<open>hr\<close>.
\<close>

fun collect_content :: "nat \<Rightarrow> element list \<Rightarrow> parse_error + content_part list" where
  "collect_content heading_level [] = Inr []"
| "collect_content heading_level (NavigableString s # rest) =
     (if s = [] then Inr [] else collect_content heading_level rest)"
| "collect_content heading_level (current # rest) =
     (if prefix ''h'' (element_name current) then
        (case tag_level (element_name current) of
           Inl err \<Rightarrow> Inl err
         | Inr current_level \<Rightarrow>
             if current_level \<le> heading_level then Inr []
             else (case collect_content heading_level rest of
                     Inl err \<Rightarrow> Inl err
                   | Inr parts \<Rightarrow> Inr (element_parts current @ parts)))
      else (case collect_content heading_level rest of
              Inl err \<Rightarrow> Inl err
            | Inr parts \<Rightarrow> Inr (element_parts current @ parts)))"

text \<open>
  \<^verbatim>\<open>_extract_section_content\<close>: the heading by its \<^verbatim>\<open>id\<close>, else the first heading
  whose text contains the title, both in lower case.
\<close>

definition extract_section_content :: "element list \<Rightarrow> string \<Rightarrow> parse_error + content_part list" where
  "extract_section_content main_content section_title =
     (let section_id = replace_space (lower section_title);
          heading = find_heading (\<lambda>hid text. hid = Some section_id) main_content;
          heading =
            (if heading = None then
               find_heading
                 (\<lambda>hid text. str_in (lower section_title) (lower (strip text))) main_content
             else heading) in
      case heading of
        None \<Rightarrow> Inr []
      | Some (tag, siblings) \<Rightarrow>
          (case tag_level tag of
             Inl err \<Rightarrow> Inl err
           | Inr heading_level \<Rightarrow> collect_content heading_level siblings))"

text \<open>
  The heading search of \<^verbatim>\<open>_extract_links_from_section\<close>: the heading whose \<^verbatim>\<open>id\<close>
  in lower case is the section id (a heading without \<^verbatim>\<open>id\<close> has the id \<^verbatim>\<open>''\<close>), else
  the first heading whose text is the title or starts with the title followed by a
  space, a colon, a newline or a tab, in lower case. The character after the title,
  \<^verbatim>\<open>heading_lower[len(section_lower)]\<close>, is read only when the heading text starts with
  the title and is longer, so it is the head of what is left after dropping the title.
\<close>

definition boundary_match :: "string \<Rightarrow> string \<Rightarrow> bool" where
  "boundary_match heading_lower section_lower =
     (heading_lower = section_lower
      \<or> (prefix section_lower heading_lower
          \<and> (length heading_lower = length section_lower
              \<or> (case drop (length section_lower) heading_lower of
                    [] \<Rightarrow> False
                  | c # cs \<Rightarrow> c \<in> set [CHR '' '', CHR '':'', CHR 0x0A, CHR 0x09]))))"

definition links_section_heading :: "element list \<Rightarrow> string \<Rightarrow> (string \<times> element list) option" where
  "links_section_heading main_content section_title =
     (let section_id = replace_space (lower section_title);
          heading =
            find_heading
              (\<lambda>hid text. lower (case hid of None \<Rightarrow> '''' | Some i \<Rightarrow> i) = section_id)
              main_content in
      if heading = None then
        find_heading
          (\<lambda>hid text. boundary_match (lower (strip text)) (lower section_title)) main_content
      else heading)"

text \<open>A page with one heading, Seeing, and a paragraph under it.\<close>

definition seeing_page :: "element list" where
  "seeing_page = [Heading ''h2'' (Some ''Seeing'') ''Seeing'', P ''Seeing is believing.'']"

section \<open>Properties of the breadcrumb resolver\<close>

lemma path_char_not_slash: "path_char c \<Longrightarrow> c \<noteq> CHR ''/''"
  by (auto simp: path_char_def isalnum_def)

lemma path_parts_props:
  "p \<in> set (path_parts bs) \<Longrightarrow> p \<noteq> [] \<and> list_all path_char p"
  by (induction bs) (auto simp: Let_def normalize_name_def list_all_iff split: if_splits)

lemma path_parts_eq:
  "path_parts bs =
     filter (\<lambda>p. p \<noteq> []) (map (\<lambda>crumb. normalize_name (dict_get crumb ''name'' '''')) bs)"
  by (induction bs) (auto simp: Let_def normalize_name_def lower_def replace_space_def)

lemma str_in_dslash_Cons:
  "str_in ''//'' (c # s) = ((c = CHR ''/'' \<and> prefix ''/'' s) \<or> str_in ''//'' s)"
  by (auto simp: prefix_def)

lemma str_in_dslash_append:
  "list_all path_char p \<Longrightarrow> str_in ''//'' (p @ s) = str_in ''//'' s"
  by (induction p) (auto simp: str_in_dslash_Cons dest: path_char_not_slash simp del: str_in.simps)

lemma join_parts_well_formed:
  "\<lbrakk>parts \<noteq> []; \<forall>p\<in>set parts. p \<noteq> [] \<and> list_all path_char p\<rbrakk> \<Longrightarrow>
     join ''/'' parts \<noteq> []
     \<and> hd (join ''/'' parts) \<noteq> CHR ''/''
     \<and> last (join ''/'' parts) \<noteq> CHR ''/''
     \<and> \<not> str_in ''//'' (join ''/'' parts)
     \<and> list_all (\<lambda>c. path_char c \<or> c = CHR ''/'') (join ''/'' parts)"
proof (induction "''/''" parts rule: join.induct)
  case 1
  then show ?case by simp
next
  case (2 p)
  then have p: "p \<noteq> []" "list_all path_char p" by auto
  from p have "path_char (hd p)" "path_char (last p)"
    by (auto simp: list_all_iff)
  then have "hd p \<noteq> CHR ''/''" "last p \<noteq> CHR ''/''"
    by (auto dest: path_char_not_slash)
  moreover have "\<not> str_in ''//'' p"
    using str_in_dslash_append [OF p(2), of "[]"] by simp
  moreover have "list_all (\<lambda>c. path_char c \<or> c = CHR ''/'') p"
    using p(2) by (simp add: list_all_iff)
  ultimately show ?case using p(1) by simp
next
  case (3 p q ps)
  let ?rest = "join ''/'' (q # ps)"
  from 3 have p: "p \<noteq> []" "list_all path_char p" by auto
  from 3 have rest: "?rest \<noteq> []" "hd ?rest \<noteq> CHR ''/''" "last ?rest \<noteq> CHR ''/''"
    "\<not> str_in ''//'' ?rest" "list_all (\<lambda>c. path_char c \<or> c = CHR ''/'') ?rest"
    by auto
  have j: "join ''/'' (p # q # ps) = p @ CHR ''/'' # ?rest" by simp
  from p have "path_char (hd p)" by (auto simp: list_all_iff)
  then have h: "hd (p @ CHR ''/'' # ?rest) \<noteq> CHR ''/''"
    using p(1) by (auto dest: path_char_not_slash)
  have l: "last (p @ CHR ''/'' # ?rest) \<noteq> CHR ''/''"
    using rest(1,3) by simp
  have "\<not> prefix ''/'' ?rest"
    using rest(1,2) by (cases ?rest) auto
  then have d: "\<not> str_in ''//'' (p @ CHR ''/'' # ?rest)"
    using rest(4) by (simp add: str_in_dslash_append [OF p(2)] str_in_dslash_Cons del: str_in.simps)
  have a: "list_all (\<lambda>c. path_char c \<or> c = CHR ''/'') (p @ CHR ''/'' # ?rest)"
    using p(2) rest(5) by (auto simp: list_all_iff)
  show ?case unfolding j using h l d a by simp
qed

text \<open>
  Claim C10. For every breadcrumb chain, also one with names that normalise to the empty
  string, the path that \<^verbatim>\<open>_normalize_breadcrumb_path\<close> returns has no empty segment: it
  does not start with a slash, does not end with one, contains no two slashes in a row,
  and each of its characters is alphanumeric, an underscore, a hyphen or the separator.
\<close>

theorem normalize_breadcrumb_path_well_formed:
  "\<not> prefix ''/'' (normalize_breadcrumb_path breadcrumbs)
   \<and> \<not> suffix ''/'' (normalize_breadcrumb_path breadcrumbs)
   \<and> \<not> str_in ''//'' (normalize_breadcrumb_path breadcrumbs)
   \<and> list_all (\<lambda>c. isalnum c \<or> c = CHR ''_'' \<or> c = CHR ''-'' \<or> c = CHR ''/'')
        (normalize_breadcrumb_path breadcrumbs)"
proof (cases "path_parts breadcrumbs = []")
  case True
  then show ?thesis by (simp add: normalize_breadcrumb_path_def)
next
  case False
  let ?r = "join ''/'' (path_parts breadcrumbs)"
  from False have eq: "normalize_breadcrumb_path breadcrumbs = ?r"
    by (auto simp: normalize_breadcrumb_path_def)
  have wf: "?r \<noteq> [] \<and> hd ?r \<noteq> CHR ''/'' \<and> last ?r \<noteq> CHR ''/'' \<and> \<not> str_in ''//'' ?r
      \<and> list_all (\<lambda>c. path_char c \<or> c = CHR ''/'') ?r"
    using join_parts_well_formed [OF False] path_parts_props by blast
  then have "\<not> prefix ''/'' ?r"
    by (cases ?r) auto
  moreover from wf have "\<not> suffix ''/'' ?r"
    by (auto simp: suffix_def)
  moreover from wf
  have "list_all (\<lambda>c. isalnum c \<or> c = CHR ''_'' \<or> c = CHR ''-'' \<or> c = CHR ''/'') ?r"
    by (auto simp: list_all_iff path_char_def)
  ultimately show ?thesis using wf unfolding eq by simp
qed

text \<open>The theorem at a chain whose middle name normalises to the empty string.\<close>

theorem normalize_breadcrumb_path_well_formed_witness:
  "normalize_breadcrumb_path [[''name'' \<mapsto> ''Europe''], [''name'' \<mapsto> ''?!''], [''name'' \<mapsto> ''Poland'']]
     = ''europe/poland''
   \<and> \<not> str_in ''//''
        (normalize_breadcrumb_path
           [[''name'' \<mapsto> ''Europe''], [''name'' \<mapsto> ''?!''], [''name'' \<mapsto> ''Poland'']])"
proof -
  have "normalize_breadcrumb_path
          [[''name'' \<mapsto> ''Europe''], [''name'' \<mapsto> ''?!''], [''name'' \<mapsto> ''Poland'']]
        = ''europe/poland''"
    by code_simp
  then show ?thesis
    using normalize_breadcrumb_path_well_formed
      [of "[[''name'' \<mapsto> ''Europe''], [''name'' \<mapsto> ''?!''], [''name'' \<mapsto> ''Poland'']]"]
    by simp
qed

text \<open>
  Claim C7, as stated, fails: the code replaces the space character only, so a tab inside
  a name is stripped where the specification's words give an underscore, and a name that
  normalises to the empty string is left out where the specification's words give an
  empty segment.
\<close>

theorem normalize_breadcrumb_path_whitespace_counterexample:
  "normalize_breadcrumb_path
     [[''name'' \<mapsto> ''Central'' @ [CHR 0x09] @ ''Europe''], [''name'' \<mapsto> ''?!''],
      [''name'' \<mapsto> ''Poland'']]
     = ''centraleurope/poland''
   \<and> spec_normalize_breadcrumb_path
     [[''name'' \<mapsto> ''Central'' @ [CHR 0x09] @ ''Europe''], [''name'' \<mapsto> ''?!''],
      [''name'' \<mapsto> ''Poland'']]
     = ''central_europe//poland''"
  by code_simp

text \<open>
  Claim C7, amended. \<^verbatim>\<open>_normalize_breadcrumb_path\<close> lowercases each name, replaces each
  space character by an underscore, strips the characters that are not alphanumeric,
  underscore or hyphen, leaves out the names that are empty after that, and joins the
  rest with a slash. The empty chain gives the empty string, and the chain Europe,
  Central Europe, Poland gives \<^verbatim>\<open>europe/central_europe/poland\<close>.
\<close>

theorem normalize_breadcrumb_path_characterisation:
  "normalize_breadcrumb_path breadcrumbs =
     join ''/'' (filter (\<lambda>part. part \<noteq> '''')
       (map (\<lambda>crumb. filter path_char (replace_space (lower (dict_get crumb ''name'' ''''))))
            breadcrumbs))
   \<and> normalize_breadcrumb_path [] = ''''
   \<and> normalize_breadcrumb_path example_chain = ''europe/central_europe/poland''"
proof -
  have "normalize_breadcrumb_path breadcrumbs = join ''/'' (path_parts breadcrumbs)"
    by (simp add: normalize_breadcrumb_path_def Let_def)
  moreover have "normalize_breadcrumb_path [] = ''''"
    by (simp add: normalize_breadcrumb_path_def)
  moreover have "normalize_breadcrumb_path example_chain = ''europe/central_europe/poland''"
    unfolding example_chain_def by code_simp
  ultimately show ?thesis
    by (simp add: path_parts_eq normalize_name_def)
qed

text \<open>
  Claim C4. The docstring of \<^verbatim>\<open>_detect_country_from_breadcrumbs\<close> and the specification
  give Poland for the chain Europe, Central Europe, Poland and the query Krakow. The code
  drops the last item of the chain as the current page before it scans, so on this chain
  it scans Central Europe and Europe only and returns \<^verbatim>\<open>None\<close>. It returns Poland when
  the chain ends with an item for the current page.
\<close>

theorem detect_country_docstring_example:
  "detect_country_from_breadcrumbs example_chain ''Krakow'' = None
   \<and> detect_country_from_breadcrumbs (example_chain @ [[''name'' \<mapsto> ''Krakow'']]) ''Krakow''
       = Some ''Poland''"
  unfolding example_chain_def by code_simp

section \<open>Properties of the classifiers\<close>

text \<open>
  Claim C5, as stated, fails: for a country parent, a city child and a section that is in
  none of the known groups, the result is \<^verbatim>\<open>contains\<close>, not \<^verbatim>\<open>located_in\<close>.
\<close>

theorem detect_relationship_type_located_in_counterexample:
  "lower ''Unknown Section'' \<notin> set known_sections
   \<and> detect_relationship_type ''country'' ''city'' ''Unknown Section'' = ''contains''
   \<and> detect_relationship_type ''country'' ''city'' ''Unknown Section'' \<noteq> ''located_in''"
  by code_simp

text \<open>
  Claim C5, amended. For every origin section name that matches none of the known
  section groups, \<^verbatim>\<open>_detect_relationship_type\<close> with a country parent and a city child
  returns \<^verbatim>\<open>contains\<close>: the first geographic default decides, and the
  \<^verbatim>\<open>located_in\<close> default after it is never reached.
\<close>

theorem detect_relationship_type_country_city_default:
  "lower section \<notin> set known_sections \<Longrightarrow>
     detect_relationship_type ''country'' ''city'' section = ''contains''"
  by (simp add: detect_relationship_type_def known_sections_def cities_block_def
      regions_block_def)

theorem detect_relationship_type_country_city_default_witness:
  "lower ''Unknown Section'' \<notin> set known_sections
   \<and> detect_relationship_type ''country'' ''city'' ''Unknown Section'' = ''contains''"
proof -
  have h: "lower ''Unknown Section'' \<notin> set known_sections"
    by code_simp
  show ?thesis
    using h detect_relationship_type_country_city_default [OF h] by simp
qed

text \<open>
  Claim C8, as stated, fails: a page with an empty sections mapping and no coordinates
  whose \<^verbatim>\<open>metadata.regions\<close> list is not empty is classified as a country.
\<close>

theorem detect_node_type_default_counterexample:
  "detect_node_type ''Mazovia''
     \<lparr>pd_metadata = Some \<lparr>md_sections = Map.empty, md_regions = [''Warsaw area''], md_cities = []\<rparr>,
      pd_coordinates = (None :: unit option)\<rparr> = ''country''"
  by (simp add: detect_node_type_def has_section_def)

text \<open>
  Claim C8, amended. For every parsed page whose sections mapping is empty, whose
  \<^verbatim>\<open>metadata.regions\<close> and \<^verbatim>\<open>metadata.cities\<close> lists are empty and which has no
  coordinates, \<^verbatim>\<open>_detect_node_type\<close> returns \<^verbatim>\<open>destination\<close>; so it does for a page
  with no metadata at all and no coordinates.
\<close>

theorem detect_node_type_default:
  "\<lbrakk>pd_coordinates parsed = None;
    pd_metadata parsed = None
    \<or> (\<exists>m. pd_metadata parsed = Some m \<and> md_sections m = Map.empty
            \<and> md_regions m = [] \<and> md_cities m = [])\<rbrakk> \<Longrightarrow>
     detect_node_type query parsed = ''destination''"
  by (auto simp: detect_node_type_def has_section_def empty_metadata_def)

theorem detect_node_type_default_witness:
  "detect_node_type ''Nowhere''
     \<lparr>pd_metadata = Some \<lparr>md_sections = Map.empty, md_regions = [], md_cities = []\<rparr>,
      pd_coordinates = (None :: unit option)\<rparr> = ''destination''"
  using detect_node_type_default
    [of "\<lparr>pd_metadata = Some \<lparr>md_sections = Map.empty, md_regions = [], md_cities = []\<rparr>,
          pd_coordinates = (None :: unit option)\<rparr>" "''Nowhere''"]
  by simp

section \<open>Properties of the global graph merge\<close>

lemma index_nodes_dom:
  "index_nodes ns m = Inr m' \<Longrightarrow>
     dom m' = dom m \<union> node_key ` set ns \<and> list_all (\<lambda>n. hashable (py_get n ''id'')) ns"
  by (induction ns arbitrary: m) (auto simp: Let_def node_key_def split: if_splits)

lemma index_nodes_ok:
  "list_all (\<lambda>n. hashable (py_get n ''id'')) ns \<Longrightarrow> \<exists>m'. index_nodes ns m = Inr m'"
  by (induction ns arbitrary: m) (auto simp: Let_def)

lemma index_edges_dom:
  "index_edges es m = Inr m' \<Longrightarrow>
     dom m' = dom m \<union> edge_key ` set es \<and> list_all (\<lambda>e. hashable_key (edge_parts e)) es"
  by (induction es arbitrary: m) (auto simp: Let_def edge_key_def split: if_splits)

lemma index_edges_ok:
  "list_all (\<lambda>e. hashable_key (edge_parts e)) es \<Longrightarrow> \<exists>m'. index_edges es m = Inr m'"
  by (induction es arbitrary: m) (auto simp: Let_def)

lemma add_nodes_facts:
  "add_nodes ns (g, m) = Inr (g', m') \<Longrightarrow>
     (\<exists>new. g' = g @ new \<and> set new \<subseteq> set ns
        \<and> list_all (\<lambda>n. truthy (py_get n ''id'') \<and> hashable (py_get n ''id'')) new
        \<and> distinct (map node_key new) \<and> node_key ` set new \<inter> dom m = {}
        \<and> dom m' = dom m \<union> node_key ` set new)
     \<and> (\<forall>n\<in>set ns. truthy (py_get n ''id'') \<longrightarrow>
           hashable (py_get n ''id'') \<and> node_key n \<in> dom m')"
proof (induction ns arbitrary: g m)
  case Nil
  then show ?case by simp
next
  case (Cons n ns)
  show ?case
  proof (cases "truthy (py_get n ''id'')")
    case False
    with Cons.prems have "add_nodes ns (g, m) = Inr (g', m')" by (simp add: Let_def)
    from Cons.IH [OF this] obtain new where new: "g' = g @ new" "set new \<subseteq> set ns"
      "list_all (\<lambda>n. truthy (py_get n ''id'') \<and> hashable (py_get n ''id'')) new"
      "distinct (map node_key new)" "node_key ` set new \<inter> dom m = {}"
      "dom m' = dom m \<union> node_key ` set new"
      and all: "\<forall>n\<in>set ns. truthy (py_get n ''id'') \<longrightarrow>
         hashable (py_get n ''id'') \<and> node_key n \<in> dom m'"
      by (elim conjE exE) (rule that)
    have "set new \<subseteq> set (n # ns)" using new(2) by auto
    moreover have "\<forall>x\<in>set (n # ns). truthy (py_get x ''id'') \<longrightarrow>
         hashable (py_get x ''id'') \<and> node_key x \<in> dom m'"
      using all False by simp
    ultimately show ?thesis using new(1,3,4,5,6)
        by (intro conjI exI [of _ new]) assumption+
  next
    case True
    with Cons.prems have h: "hashable (py_get n ''id'')"
      by (simp add: Let_def split: if_splits)
    show ?thesis
    proof (cases "m (node_key n) = None")
      case False
      with Cons.prems True h have r: "add_nodes ns (g, m) = Inr (g', m')"
        by (auto simp: node_key_def Let_def)
      from Cons.IH [OF r] obtain new where new: "g' = g @ new" "set new \<subseteq> set ns"
        "list_all (\<lambda>n. truthy (py_get n ''id'') \<and> hashable (py_get n ''id'')) new"
        "distinct (map node_key new)" "node_key ` set new \<inter> dom m = {}"
        "dom m' = dom m \<union> node_key ` set new"
        and all: "\<forall>n\<in>set ns. truthy (py_get n ''id'') \<longrightarrow>
           hashable (py_get n ''id'') \<and> node_key n \<in> dom m'"
        by (elim conjE exE) (rule that)
      from False new(6) have "node_key n \<in> dom m'" by auto
      then have "\<forall>x\<in>set (n # ns). truthy (py_get x ''id'') \<longrightarrow>
           hashable (py_get x ''id'') \<and> node_key x \<in> dom m'"
        using all h by simp
      moreover have "set new \<subseteq> set (n # ns)" using new(2) by auto
      ultimately show ?thesis using new(1,3,4,5,6)
        by (intro conjI exI [of _ new]) assumption+
    next
      case none: True
      with Cons.prems True h
      have r: "add_nodes ns (g @ [n], m(node_key n \<mapsto> n)) = Inr (g', m')"
        by (simp add: node_key_def Let_def)
      from Cons.IH [OF r] obtain new where new: "g' = (g @ [n]) @ new" "set new \<subseteq> set ns"
        "list_all (\<lambda>n. truthy (py_get n ''id'') \<and> hashable (py_get n ''id'')) new"
        "distinct (map node_key new)" "node_key ` set new \<inter> dom (m(node_key n \<mapsto> n)) = {}"
        "dom m' = dom (m(node_key n \<mapsto> n)) \<union> node_key ` set new"
        and all: "\<forall>n\<in>set ns. truthy (py_get n ''id'') \<longrightarrow>
           hashable (py_get n ''id'') \<and> node_key n \<in> dom m'"
        by (elim conjE exE) (rule that)
      let ?new = "n # new"
      have "g' = g @ ?new" using new(1) by simp
      moreover have "set ?new \<subseteq> set (n # ns)" using new(2) by auto
      moreover have "list_all (\<lambda>n. truthy (py_get n ''id'') \<and> hashable (py_get n ''id'')) ?new"
        using new(3) True h by simp
      moreover have "distinct (map node_key ?new)" using new(4,5) by auto
      moreover have "node_key ` set ?new \<inter> dom m = {}" using new(5) none by auto
      moreover have "dom m' = dom m \<union> node_key ` set ?new" using new(6) by auto
      moreover have "\<forall>x\<in>set (n # ns). truthy (py_get x ''id'') \<longrightarrow>
           hashable (py_get x ''id'') \<and> node_key x \<in> dom m'"
        using all h new(6) by simp
      ultimately show ?thesis
        by (intro conjI exI [of _ ?new]) assumption+
    qed
  qed
qed

lemma add_nodes_noop:
  "\<forall>n\<in>set ns. truthy (py_get n ''id'') \<longrightarrow> hashable (py_get n ''id'') \<and> node_key n \<in> dom m
   \<Longrightarrow> add_nodes ns (g, m) = Inr (g, m)"
  by (induction ns) (auto simp: Let_def node_key_def)

lemma add_edges_facts:
  "add_edges es (g, m) = Inr (g', m') \<Longrightarrow>
     (\<exists>new. g' = g @ new \<and> set new \<subseteq> set es
        \<and> list_all (\<lambda>e. hashable_key (edge_parts e)) new
        \<and> distinct (map edge_key new) \<and> edge_key ` set new \<inter> dom m = {}
        \<and> dom m' = dom m \<union> edge_key ` set new)
     \<and> (\<forall>e\<in>set es. hashable_key (edge_parts e) \<and> edge_key e \<in> dom m')"
proof (induction es arbitrary: g m)
  case Nil
  then show ?case by simp
next
  case (Cons e es)
  from Cons.prems have h: "hashable_key (edge_parts e)"
    by (simp add: Let_def split: if_splits)
  show ?case
  proof (cases "m (edge_key e) = None")
    case False
    with Cons.prems h have r: "add_edges es (g, m) = Inr (g', m')"
      by (auto simp: edge_key_def Let_def)
    from Cons.IH [OF r] obtain new where new: "g' = g @ new" "set new \<subseteq> set es"
      "list_all (\<lambda>e. hashable_key (edge_parts e)) new"
      "distinct (map edge_key new)" "edge_key ` set new \<inter> dom m = {}"
      "dom m' = dom m \<union> edge_key ` set new"
      and all: "\<forall>e\<in>set es. hashable_key (edge_parts e) \<and> edge_key e \<in> dom m'"
      by (elim conjE exE) (rule that)
    from False new(6) have "edge_key e \<in> dom m'" by auto
    then have "\<forall>x\<in>set (e # es). hashable_key (edge_parts x) \<and> edge_key x \<in> dom m'"
      using all h by simp
    moreover have "set new \<subseteq> set (e # es)" using new(2) by auto
    ultimately show ?thesis using new(1,3,4,5,6)
        by (intro conjI exI [of _ new]) assumption+
  next
    case none: True
    with Cons.prems h
    have r: "add_edges es (g @ [e], m(edge_key e \<mapsto> e)) = Inr (g', m')"
      by (simp add: edge_key_def Let_def)
    from Cons.IH [OF r] obtain new where new: "g' = (g @ [e]) @ new" "set new \<subseteq> set es"
      "list_all (\<lambda>e. hashable_key (edge_parts e)) new"
      "distinct (map edge_key new)" "edge_key ` set new \<inter> dom (m(edge_key e \<mapsto> e)) = {}"
      "dom m' = dom (m(edge_key e \<mapsto> e)) \<union> edge_key ` set new"
      and all: "\<forall>e\<in>set es. hashable_key (edge_parts e) \<and> edge_key e \<in> dom m'"
      by (elim conjE exE) (rule that)
    let ?new = "e # new"
    have "g' = g @ ?new" using new(1) by simp
    moreover have "set ?new \<subseteq> set (e # es)" using new(2) by auto
    moreover have "list_all (\<lambda>e. hashable_key (edge_parts e)) ?new"
      using new(3) h by simp
    moreover have "distinct (map edge_key ?new)" using new(4,5) by auto
    moreover have "edge_key ` set ?new \<inter> dom m = {}" using new(5) none by auto
    moreover have "dom m' = dom m \<union> edge_key ` set ?new" using new(6) by auto
    moreover have "\<forall>x\<in>set (e # es). hashable_key (edge_parts x) \<and> edge_key x \<in> dom m'"
      using all h new(6) by simp
    ultimately show ?thesis
        by (intro conjI exI [of _ ?new]) assumption+
  qed
qed

lemma add_edges_noop:
  "\<forall>e\<in>set es. hashable_key (edge_parts e) \<and> edge_key e \<in> dom m
   \<Longrightarrow> add_edges es (g, m) = Inr (g, m)"
  by (induction es) (auto simp: Let_def edge_key_def)

lemma load_graph_facts:
  assumes a: "load_graph file source = Inr (gd, en, ee)"
  shows "dom en = node_key ` set (g_nodes gd) \<and> dom ee = edge_key ` set (g_edges gd)
     \<and> list_all (\<lambda>n. hashable (py_get n ''id'')) (g_nodes gd)
     \<and> list_all (\<lambda>e. hashable_key (edge_parts e)) (g_edges gd)
     \<and> g_nodes gd = file_nodes file \<and> g_edges gd = file_edges file
     \<and> g_metadata gd = (case file of None \<Rightarrow> g_metadata (new_graph source) | Some g \<Rightarrow> g_metadata g)"
proof (cases "file")
  case None
  with a show ?thesis
    by (auto simp: load_graph_def new_graph_def file_nodes_def file_edges_def)
next
  case (Some g)
  with a have gd: "gd = g" and n: "index_nodes (g_nodes g) Map.empty = Inr en"
    and e: "index_edges (g_edges g) Map.empty = Inr ee"
    by (auto simp: load_graph_def split: sum.splits)
  from index_nodes_dom [OF n] index_edges_dom [OF e] gd Some show ?thesis
    by (simp add: file_nodes_def file_edges_def)
qed

lemma load_graph_Some:
  assumes "list_all (\<lambda>n. hashable (py_get n ''id'')) (g_nodes g)"
    and "list_all (\<lambda>e. hashable_key (edge_parts e)) (g_edges g)"
  shows "\<exists>en ee. load_graph (Some g) source = Inr (g, en, ee)
           \<and> dom en = node_key ` set (g_nodes g) \<and> dom ee = edge_key ` set (g_edges g)"
proof -
  from index_nodes_ok [OF assms(1)] obtain en
    where n: "index_nodes (g_nodes g) Map.empty = Inr en" by blast
  from index_edges_ok [OF assms(2)] obtain ee
    where e: "index_edges (g_edges g) Map.empty = Inr ee" by blast
  from index_nodes_dom [OF n] index_edges_dom [OF e] n e show ?thesis
    by (simp add: load_graph_def)
qed

text \<open>What one successful merge does, in one statement.\<close>

lemma update_global_graph_facts:
  assumes "update_global_graph file source nodes edges = Inr g'"
  shows "\<exists>new_nodes new_edges.
           g_nodes g' = file_nodes file @ new_nodes \<and> g_edges g' = file_edges file @ new_edges
         \<and> set new_nodes \<subseteq> set nodes \<and> set new_edges \<subseteq> set edges
         \<and> list_all (\<lambda>n. truthy (py_get n ''id'') \<and> hashable (py_get n ''id'')) new_nodes
         \<and> list_all (\<lambda>e. hashable_key (edge_parts e)) new_edges
         \<and> distinct (map node_key new_nodes) \<and> distinct (map edge_key new_edges)
         \<and> node_key ` set new_nodes \<inter> node_key ` set (file_nodes file) = {}
         \<and> edge_key ` set new_edges \<inter> edge_key ` set (file_edges file) = {}
         \<and> list_all (\<lambda>n. hashable (py_get n ''id'')) (file_nodes file)
         \<and> list_all (\<lambda>e. hashable_key (edge_parts e)) (file_edges file)
         \<and> (\<forall>n\<in>set nodes. truthy (py_get n ''id'') \<longrightarrow>
               hashable (py_get n ''id'') \<and> node_key n \<in> node_key ` set (g_nodes g'))
         \<and> (\<forall>e\<in>set edges. hashable_key (edge_parts e) \<and> edge_key e \<in> edge_key ` set (g_edges g'))
         \<and> g_metadata g' =
             AList.update ''edge_count'' (PInt (int (length (g_edges g'))))
               (AList.update ''node_count'' (PInt (int (length (g_nodes g'))))
                  (case file of None \<Rightarrow> g_metadata (new_graph source) | Some g \<Rightarrow> g_metadata g))"
proof -
  from assms obtain gd en ee gn en' ge ee' where
    l: "load_graph file source = Inr (gd, en, ee)"
    and n: "add_nodes nodes (g_nodes gd, en) = Inr (gn, en')"
    and e: "add_edges edges (g_edges gd, ee) = Inr (ge, ee')"
    and g': "g' = \<lparr>g_nodes = gn, g_edges = ge,
                  g_metadata =
                    AList.update ''edge_count'' (PInt (int (length ge)))
                      (AList.update ''node_count'' (PInt (int (length gn))) (g_metadata gd))\<rparr>"
    by (auto simp: update_global_graph_def split: sum.splits prod.splits)
  from load_graph_facts [OF l] have lf:
    "dom en = node_key ` set (g_nodes gd)" "dom ee = edge_key ` set (g_edges gd)"
    "list_all (\<lambda>n. hashable (py_get n ''id'')) (g_nodes gd)"
    "list_all (\<lambda>e. hashable_key (edge_parts e)) (g_edges gd)"
    "g_nodes gd = file_nodes file" "g_edges gd = file_edges file"
    "g_metadata gd = (case file of None \<Rightarrow> g_metadata (new_graph source) | Some g \<Rightarrow> g_metadata g)"
    by - (elim conjE, assumption)+
  from add_nodes_facts [OF n] obtain new_nodes where nn:
    "gn = g_nodes gd @ new_nodes" "set new_nodes \<subseteq> set nodes"
    "list_all (\<lambda>n. truthy (py_get n ''id'') \<and> hashable (py_get n ''id'')) new_nodes"
    "distinct (map node_key new_nodes)" "node_key ` set new_nodes \<inter> dom en = {}"
    "dom en' = dom en \<union> node_key ` set new_nodes"
    and alln: "\<forall>n\<in>set nodes. truthy (py_get n ''id'') \<longrightarrow>
           hashable (py_get n ''id'') \<and> node_key n \<in> dom en'"
    by (elim conjE exE) (rule that)
  from add_edges_facts [OF e] obtain new_edges where ne:
    "ge = g_edges gd @ new_edges" "set new_edges \<subseteq> set edges"
    "list_all (\<lambda>e. hashable_key (edge_parts e)) new_edges"
    "distinct (map edge_key new_edges)" "edge_key ` set new_edges \<inter> dom ee = {}"
    "dom ee' = dom ee \<union> edge_key ` set new_edges"
    and alle: "\<forall>e\<in>set edges. hashable_key (edge_parts e) \<and> edge_key e \<in> dom ee'"
    by (elim conjE exE) (rule that)
  have dn: "dom en' = node_key ` set gn" using nn(1,6) lf by auto
  have de: "dom ee' = edge_key ` set ge" using ne(1,6) lf by auto
  show ?thesis
    apply (rule exI [of _ new_nodes], rule exI [of _ new_edges])
    using g' nn ne lf alln alle dn de by simp
qed

lemma add_nodes_ok:
  "list_all (\<lambda>n. hashable (py_get n ''id'')) ns \<Longrightarrow> \<exists>st'. add_nodes ns st = Inr st'"
proof (induction ns arbitrary: st)
  case Nil
  show ?case by simp
next
  case (Cons n ns)
  obtain g m where st: "st = (g, m)" by (cases st)
  from Cons.prems have "list_all (\<lambda>n. hashable (py_get n ''id'')) ns" by simp
  note ih = Cons.IH [OF this]
  from Cons.prems have "hashable (py_get n ''id'')" by simp
  then show ?case
    using ih [of "(g, m)"] ih [of "(g @ [n], m(hkey (py_get n ''id'') \<mapsto> n))"]
    by (simp add: st Let_def)
qed

lemma add_edges_ok:
  "list_all (\<lambda>e. hashable_key (edge_parts e)) es \<Longrightarrow> \<exists>st'. add_edges es st = Inr st'"
proof (induction es arbitrary: st)
  case Nil
  show ?case by simp
next
  case (Cons e es)
  obtain g m where st: "st = (g, m)" by (cases st)
  from Cons.prems have "list_all (\<lambda>e. hashable_key (edge_parts e)) es" by simp
  note ih = Cons.IH [OF this]
  from Cons.prems have "hashable_key (edge_parts e)" by simp
  then show ?case
    using ih [of "(g, m)"] ih [of "(g @ [e], m(hkey3 (edge_parts e) \<mapsto> e))"]
    by (simp add: st Let_def)
qed

lemma update_global_graph_succeeds:
  assumes "list_all (\<lambda>n. hashable (py_get n ''id'')) (file_nodes file @ nodes)"
    and "list_all (\<lambda>e. hashable_key (edge_parts e)) (file_edges file @ edges)"
  shows "\<exists>merged. update_global_graph file source nodes edges = Inr merged"
proof -
  have "\<exists>gd en ee. load_graph file source = Inr (gd, en, ee)"
  proof (cases "file")
    case None
    then show ?thesis by (simp add: load_graph_def)
  next
    case (Some g)
    with assms have "list_all (\<lambda>n. hashable (py_get n ''id'')) (g_nodes g)"
      "list_all (\<lambda>e. hashable_key (edge_parts e)) (g_edges g)"
      by (simp_all add: file_nodes_def file_edges_def)
    from load_graph_Some [OF this, of source] Some show ?thesis by blast
  qed
  then obtain gd en ee where l: "load_graph file source = Inr (gd, en, ee)" by blast
  from assms(1) have "list_all (\<lambda>n. hashable (py_get n ''id'')) nodes" by simp
  from add_nodes_ok [OF this, of "(g_nodes gd, en)"]
  obtain gn en' where n: "add_nodes nodes (g_nodes gd, en) = Inr (gn, en')" by auto
  from assms(2) have "list_all (\<lambda>e. hashable_key (edge_parts e)) edges" by simp
  from add_edges_ok [OF this, of "(g_edges gd, ee)"]
  obtain ge ee' where e: "add_edges edges (g_edges gd, ee) = Inr (ge, ee')" by auto
  show ?thesis by (simp add: update_global_graph_def l n e)
qed

lemma metadata_update_twice:
  assumes "m = AList.update ''edge_count'' v (AList.update ''node_count'' u x)"
  shows "AList.update ''edge_count'' v (AList.update ''node_count'' u m) = m"
proof -
  have "map_of m ''node_count'' = Some u" "map_of m ''edge_count'' = Some v"
    unfolding assms by (simp_all add: update_conv')
  then show ?thesis by (simp add: update_triv)
qed

text \<open>The first merge of the example batch, evaluated.\<close>

lemma example_first_merge:
  "update_global_graph None ''wikivoyage_en'' [example_poland, example_idless, example_warsaw]
     [example_edge] = Inr example_graph"
  by code_simp

lemma update_global_graph_twice:
  assumes "update_global_graph file source nodes edges = Inr merged"
  shows "update_global_graph (Some merged) source nodes edges = Inr merged"
proof -
  from update_global_graph_facts [OF assms] obtain new_nodes new_edges where f:
    "g_nodes merged = file_nodes file @ new_nodes"
    "g_edges merged = file_edges file @ new_edges"
    "list_all (\<lambda>n. truthy (py_get n ''id'') \<and> hashable (py_get n ''id'')) new_nodes"
    "list_all (\<lambda>e. hashable_key (edge_parts e)) new_edges"
    "list_all (\<lambda>n. hashable (py_get n ''id'')) (file_nodes file)"
    "list_all (\<lambda>e. hashable_key (edge_parts e)) (file_edges file)"
    "\<forall>n\<in>set nodes. truthy (py_get n ''id'') \<longrightarrow>
       hashable (py_get n ''id'') \<and> node_key n \<in> node_key ` set (g_nodes merged)"
    "\<forall>e\<in>set edges. hashable_key (edge_parts e) \<and> edge_key e \<in> edge_key ` set (g_edges merged)"
    "g_metadata merged =
       AList.update ''edge_count'' (PInt (int (length (g_edges merged))))
         (AList.update ''node_count'' (PInt (int (length (g_nodes merged))))
            (case file of None \<Rightarrow> g_metadata (new_graph source) | Some g \<Rightarrow> g_metadata g))"
    by (elim conjE exE) (rule that)
  have hn: "list_all (\<lambda>n. hashable (py_get n ''id'')) (g_nodes merged)"
    using f(1,3,5) by (auto simp: list_all_iff)
  have he: "list_all (\<lambda>e. hashable_key (edge_parts e)) (g_edges merged)"
    using f(2,4,6) by (auto simp: list_all_iff)
  from load_graph_Some [OF hn he, of source] obtain en ee where
    l: "load_graph (Some merged) source = Inr (merged, en, ee)"
    and dn: "dom en = node_key ` set (g_nodes merged)"
    and de: "dom ee = edge_key ` set (g_edges merged)"
    by (elim conjE exE) (rule that)
  have n: "add_nodes nodes (g_nodes merged, en) = Inr (g_nodes merged, en)"
    using f(7) dn by (intro add_nodes_noop) simp
  have e: "add_edges edges (g_edges merged, ee) = Inr (g_edges merged, ee)"
    using f(8) de by (intro add_edges_noop) simp
  have m: "AList.update ''edge_count'' (PInt (int (length (g_edges merged))))
             (AList.update ''node_count'' (PInt (int (length (g_nodes merged))))
                (g_metadata merged)) = g_metadata merged"
    by (rule metadata_update_twice [OF f(9)])
  show ?thesis
    by (simp add: update_global_graph_def l n e m)
qed

text \<open>
  Claim C1. The global-graph merge is idempotent: for every graph file, also the file that
  does not exist yet, and for every batch of nodes and edges, a merge that writes the
  file \<open>merged\<close> followed by a merge of the same batch writes \<open>merged\<close> again; and,
  counting a merge that raises as one that leaves the file as it is, merging the batch
  twice leaves the same file as merging it once. (By \<open>update_global_graph_succeeds\<close>
  a merge of hashable ids and edge parts into a file of such never raises.)
\<close>

theorem update_global_graph_idempotent:
  "(update_global_graph file source nodes edges = Inr merged \<longrightarrow>
      update_global_graph (Some merged) source nodes edges = Inr merged)
   \<and> merge_all file [(source, nodes, edges), (source, nodes, edges)]
       = merge_all file [(source, nodes, edges)]"
proof -
  have "merge_all file [(source, nodes, edges), (source, nodes, edges)]
       = merge_all file [(source, nodes, edges)]"
  proof (cases "update_global_graph file source nodes edges")
    case (Inl e)
    then show ?thesis by simp
  next
    case (Inr g)
    with update_global_graph_twice [OF Inr] show ?thesis by simp
  qed
  then show ?thesis using update_global_graph_twice by blast
qed

text \<open>The theorem at the example batch, merged into the file that does not exist.\<close>

theorem update_global_graph_idempotent_witness:
  "update_global_graph None ''wikivoyage_en'' [example_poland, example_idless, example_warsaw]
     [example_edge] = Inr example_graph
   \<and> update_global_graph (Some example_graph) ''wikivoyage_en''
     [example_poland, example_idless, example_warsaw] [example_edge] = Inr example_graph"
  using example_first_merge
    update_global_graph_idempotent [THEN conjunct1, THEN mp, OF example_first_merge]
  by simp

lemma update_global_graph_distinct:
  assumes "update_global_graph file source nodes edges = Inr g'"
    and "distinct (map node_key (file_nodes file))"
    and "distinct (map edge_key (file_edges file))"
  shows "distinct (map node_key (g_nodes g')) \<and> distinct (map edge_key (g_edges g'))"
proof -
  from update_global_graph_facts [OF assms(1)] obtain new_nodes new_edges where f:
    "g_nodes g' = file_nodes file @ new_nodes"
    "g_edges g' = file_edges file @ new_edges"
    "distinct (map node_key new_nodes)" "distinct (map edge_key new_edges)"
    "node_key ` set new_nodes \<inter> node_key ` set (file_nodes file) = {}"
    "edge_key ` set new_edges \<inter> edge_key ` set (file_edges file) = {}"
    by (elim conjE exE) (rule that)
  have "distinct (map node_key (file_nodes file @ new_nodes))"
    using assms(2) f(3,5) by auto
  moreover have "distinct (map edge_key (file_edges file @ new_edges))"
    using assms(3) f(4,6) by auto
  ultimately show ?thesis by (simp add: f(1,2))
qed

lemma update_global_graph_prefix:
  assumes "update_global_graph file source nodes edges = Inr g'"
  shows "prefix (file_nodes file) (g_nodes g') \<and> prefix (file_edges file) (g_edges g')"
proof -
  from update_global_graph_facts [OF assms] obtain new_nodes new_edges where
    "g_nodes g' = file_nodes file @ new_nodes"
    "g_edges g' = file_edges file @ new_edges"
    by (elim conjE exE) (rule that)
  then show ?thesis by simp
qed

lemma merge_all_distinct:
  "\<lbrakk>distinct (map node_key (file_nodes file)); distinct (map edge_key (file_edges file))\<rbrakk> \<Longrightarrow>
     distinct (map node_key (file_nodes (merge_all file batches)))
     \<and> distinct (map edge_key (file_edges (merge_all file batches)))"
proof (induction batches arbitrary: "file")
  case Nil
  then show ?case by simp
next
  case (Cons b batches)
  obtain source nodes edges where b: "b = (source, nodes, edges)"
    by (cases b)
  show ?case
  proof (cases "update_global_graph file source nodes edges")
    case (Inl e)
    with Cons b show ?thesis by simp
  next
    case (Inr g')
    from update_global_graph_distinct [OF Inr Cons.prems]
    have "distinct (map node_key (file_nodes (Some g')))"
      "distinct (map edge_key (file_edges (Some g')))"
      by (simp_all add: file_nodes_def file_edges_def)
    from Cons.IH [OF this] Inr b show ?thesis by simp
  qed
qed

lemma distinct_map_outer:
  assumes "distinct (map (\<lambda>x. f (g x)) xs)"
  shows "distinct (map g xs)"
proof -
  have "map (\<lambda>x. f (g x)) xs = map f (map g xs)" by simp
  with assms have "distinct (map f (map g xs))" by simp
  then show ?thesis by (simp only: distinct_map)
qed

lemma distinct_keys_ids:
  "distinct (map node_key ns) \<Longrightarrow> distinct (map (\<lambda>n. py_get n ''id'') ns)"
  unfolding node_key_def [abs_def] by (rule distinct_map_outer)

lemma distinct_keys_parts:
  "distinct (map edge_key es) \<Longrightarrow> distinct (map edge_parts es)"
  unfolding edge_key_def [abs_def] by (rule distinct_map_outer)

lemma example_merge_all:
  "merge_all None
     [(''wikivoyage_en'', [example_poland, example_idless, example_warsaw], [example_edge])]
     = Some example_graph"
  by code_simp

lemma example_second_merge:
  "update_global_graph (Some example_graph) ''wikivoyage_pl'' [example_warsaw_again]
     [example_edge] = Inr example_graph"
  by code_simp

text \<open>
  Claim C6. After any sequence of merges that starts from no file, no two nodes of the
  graph file share an id and no two edges share a (source, target, type) triple, under
  plain equality and under the equality of Python dictionary keys; and one more merge
  keeps the nodes and the edges of the file as they are, in their places, at the front of
  the new lists, so that with the ids distinct every appended node has an id that was
  absent, and no node already present is overwritten.
\<close>

theorem global_graph_unique_ids_no_overwrite:
  assumes "merge_all None batches = Some g"
    and "update_global_graph (Some g) source nodes edges = Inr g'"
  shows "distinct (map (\<lambda>n. py_get n ''id'') (g_nodes g))
       \<and> distinct (map edge_parts (g_edges g))
       \<and> distinct (map (\<lambda>n. py_get n ''id'') (g_nodes g'))
       \<and> distinct (map edge_parts (g_edges g'))
       \<and> distinct (map node_key (g_nodes g'))
       \<and> distinct (map edge_key (g_edges g'))
       \<and> prefix (g_nodes g) (g_nodes g')
       \<and> prefix (g_edges g) (g_edges g')"
proof -
  have "distinct (map node_key (file_nodes (merge_all None batches)))
      \<and> distinct (map edge_key (file_edges (merge_all None batches)))"
    by (rule merge_all_distinct) (simp_all add: file_nodes_def file_edges_def)
  with assms(1) have g: "distinct (map node_key (file_nodes (Some g)))"
    "distinct (map edge_key (file_edges (Some g)))"
    by simp_all
  from update_global_graph_distinct [OF assms(2) g]
  have g': "distinct (map node_key (g_nodes g'))" "distinct (map edge_key (g_edges g'))"
    by simp_all
  from update_global_graph_prefix [OF assms(2)]
  have p: "prefix (g_nodes g) (g_nodes g')" "prefix (g_edges g) (g_edges g')"
    by (simp_all add: file_nodes_def file_edges_def)
  from g have g0: "distinct (map node_key (g_nodes g))" "distinct (map edge_key (g_edges g))"
    by (simp_all add: file_nodes_def file_edges_def)
  show ?thesis
    using g0(1) [THEN distinct_keys_ids] g0(2) [THEN distinct_keys_parts]
      g' g'(1) [THEN distinct_keys_ids] g'(2) [THEN distinct_keys_parts] p
    by simp
qed

text \<open>The theorem at the example: a second merge brings another node with the id of
  Warsaw and the same edge, and the file does not change.\<close>

theorem global_graph_unique_ids_no_overwrite_witness:
  "merge_all None
     [(''wikivoyage_en'', [example_poland, example_idless, example_warsaw], [example_edge])]
     = Some example_graph
   \<and> update_global_graph (Some example_graph) ''wikivoyage_pl'' [example_warsaw_again]
     [example_edge] = Inr example_graph
   \<and> distinct (map (\<lambda>n. py_get n ''id'') (g_nodes example_graph))
   \<and> prefix (g_nodes example_graph) (g_nodes example_graph)"
  using example_merge_all example_second_merge
    global_graph_unique_ids_no_overwrite [OF example_merge_all example_second_merge]
  by simp

lemma add_nodes_filter:
  "add_nodes (filter (\<lambda>n. \<not> id_missing_none_or_empty n) ns) st = add_nodes ns st"
proof (induction ns arbitrary: st)
  case Nil
  show ?case by simp
next
  case (Cons n ns)
  obtain g m where st: "st = (g, m)" by (cases st)
  show ?case
  proof (cases "id_missing_none_or_empty n")
    case True
    then have "\<not> truthy (py_get n ''id'')"
      by (auto simp: id_missing_none_or_empty_def py_get_def)
    with True show ?thesis by (simp add: st Cons.IH)
  next
    case False
    then show ?thesis by (simp add: st Cons.IH Let_def)
  qed
qed

text \<open>
  Claim C9. A node whose \<^verbatim>\<open>id\<close> is missing, \<^verbatim>\<open>None\<close> or empty is dropped: the merge of a
  batch is the merge of the batch without these nodes, with the same outcome for the
  other nodes and the edges, and the same success or failure; and no node that a merge
  appends to the file is such a node.
\<close>

theorem update_global_graph_drops_idless_nodes:
  "update_global_graph file source (filter (\<lambda>n. \<not> id_missing_none_or_empty n) nodes) edges
     = update_global_graph file source nodes edges
   \<and> (\<forall>g'. update_global_graph file source nodes edges = Inr g' \<longrightarrow>
          \<not> list_ex id_missing_none_or_empty (drop (length (file_nodes file)) (g_nodes g')))"
proof -
  have "update_global_graph file source (filter (\<lambda>n. \<not> id_missing_none_or_empty n) nodes) edges
     = update_global_graph file source nodes edges"
    unfolding update_global_graph_def add_nodes_filter by (rule refl)
  moreover have "\<not> list_ex id_missing_none_or_empty (drop (length (file_nodes file)) (g_nodes g'))"
    if "update_global_graph file source nodes edges = Inr g'" for g'
  proof -
    from update_global_graph_facts [OF that] obtain new_nodes new_edges where f:
      "g_nodes g' = file_nodes file @ new_nodes"
      "list_all (\<lambda>n. truthy (py_get n ''id'') \<and> hashable (py_get n ''id'')) new_nodes"
      by (elim conjE exE) (rule that)
    have "\<not> id_missing_none_or_empty n" if "truthy (py_get n ''id'')" for n
      using that by (auto simp: id_missing_none_or_empty_def py_get_def split: option.splits)
    with f(2) have "\<not> list_ex id_missing_none_or_empty new_nodes"
      by (auto simp: list_all_iff list_ex_iff)
    then show ?thesis by (simp add: f(1))
  qed
  ultimately show ?thesis by blast
qed

text \<open>The theorem at the example batch, which has a node with an empty id.\<close>

theorem update_global_graph_drops_idless_nodes_witness:
  "id_missing_none_or_empty example_idless
   \<and> update_global_graph None ''wikivoyage_en'' [example_poland, example_idless, example_warsaw]
       [example_edge] = Inr example_graph
   \<and> update_global_graph None ''wikivoyage_en''
       (filter (\<lambda>n. \<not> id_missing_none_or_empty n) [example_poland, example_idless, example_warsaw])
       [example_edge] = Inr example_graph
   \<and> \<not> list_ex id_missing_none_or_empty (drop (length (file_nodes None)) (g_nodes example_graph))"
proof -
  have "id_missing_none_or_empty example_idless" by code_simp
  then show ?thesis
    using example_first_merge
      update_global_graph_drops_idless_nodes
        [of None "''wikivoyage_en''" "[example_poland, example_idless, example_warsaw]"
           "[example_edge]"]
    by simp
qed

section \<open>Properties of the recursive fetch\<close>

lemma fold_invariant:
  assumes "I s" and "\<And>x s. x \<in> set xs \<Longrightarrow> I s \<Longrightarrow> I (f x s)"
  shows "I (fold f xs s)"
  using assms by (induction xs arbitrary: s) auto

lemma replace_space_idem: "replace_space (replace_space s) = replace_space s"
  by (simp add: replace_space_def)

lemma content_names_append:
  "content_names (xs @ ys) = content_names xs @ content_names ys"
  by (induction xs rule: content_names.induct) auto

lemma full_page_names_append:
  "full_page_names (xs @ ys) = full_page_names xs @ full_page_names ys"
  by (induction xs rule: full_page_names.induct) auto

lemma fetch_once_visit:
  assumes "fetch_once before st" and "name \<notin> visited st" and "replace_space name = name"
  shows "fetch_once before
           (request_full_page full_page name
              (st\<lparr>visited := insert name (visited st),
                  fetched := fetched st @ [ContentRequest name]\<rparr>))"
  using assms
  by (auto simp: fetch_once_def request_full_page_def content_names_append
      full_page_names_append)

text \<open>
  Every run keeps the invariant: a name, as the code normalises it, has at most one first
  request and at most one second request.
\<close>

lemma fetch_once_preserved:
  "fetch_once before st \<Longrightarrow>
     fetch_once before (fetch_linked_pages_recursive web max_depth current_depth page_names st)"
proof (induction web max_depth current_depth page_names st
    rule: fetch_linked_pages_recursive.induct)
  case (1 web max_depth current_depth page_names st)
  show ?case
  proof (cases "max_depth \<le> current_depth")
    case True
    with "1.prems" show ?thesis
      by (subst fetch_linked_pages_recursive.simps) simp
  next
    case False
    let ?body = "\<lambda>page_name st.
        let page_name_normalized = replace_space page_name in
        if page_name_normalized \<in> visited st then st
        else
          (let st = st\<lparr>visited := insert page_name_normalized (visited st)\<rparr>;
               response = web (fetched st) page_name_normalized;
               st = st\<lparr>fetched := fetched st @ [ContentRequest page_name_normalized]\<rparr> in
           case response of
             NoResponse \<Rightarrow> st
           | Failed full_page \<Rightarrow> request_full_page full_page page_name_normalized st
           | Page full_page child_all_links \<Rightarrow>
               (let st = request_full_page full_page page_name_normalized st in
                if current_depth < max_depth - 1 \<and> child_all_links \<noteq> [] then
                  fetch_linked_pages_recursive web max_depth (current_depth + 1)
                    child_all_links st
                else st))"
    have step: "fetch_once before (?body x s)"
      if x: "x \<in> set page_names" and s: "fetch_once before s" for x s
    proof (cases "replace_space x \<in> visited s")
      case True
      with s show ?thesis by simp
    next
      case nv: False
      let ?n = "replace_space x"
      let ?s1 = "s\<lparr>visited := insert ?n (visited s)\<rparr>"
      let ?s2 = "?s1\<lparr>fetched := fetched ?s1 @ [ContentRequest ?n]\<rparr>"
      have visit: "fetch_once before (request_full_page full_page ?n ?s2)" for full_page
        using fetch_once_visit [OF s nv replace_space_idem, of full_page] by simp
      from visit [of False] have s2: "fetch_once before ?s2"
        by (simp add: request_full_page_def)
      show ?thesis
      proof (cases "web (fetched ?s1) ?n")
        case NoResponse
        with nv s2 show ?thesis by (simp add: Let_def)
      next
        case (Failed full_page)
        with nv visit [of full_page] show ?thesis by (simp add: Let_def)
      next
        case (Page full_page links)
        let ?s3 = "request_full_page full_page ?n ?s2"
        show ?thesis
        proof (cases "current_depth < max_depth - 1 \<and> links \<noteq> []")
          case deeper: True
          have "fetch_once before
                  (fetch_linked_pages_recursive web max_depth (current_depth + 1) links ?s3)"
            by (rule "1.IH" [OF False x refl nv refl refl refl Page refl deeper visit])
          with nv Page deeper show ?thesis by (simp add: Let_def)
        next
          case False
          with nv Page visit [of full_page] show ?thesis by (auto simp: Let_def)
        qed
      qed
    qed
    have "fetch_once before (fold ?body page_names st)"
      using "1.prems" step by (rule fold_invariant)
    with False show ?thesis
      by (subst fetch_linked_pages_recursive.simps) simp
  qed
qed

text \<open>
  On the example site, two levels deep, Krakow is linked from Warsaw and listed at the
  root, and is requested once; Lazienki Park, linked from Warsaw and from Krakow under two
  spellings, is requested once.
\<close>

lemma example_run_requests:
  "fetched (fetch_linked_pages_recursive example_web 2 0 [''Warsaw'', ''Krakow'', ''Gdansk'']
       initial_crawl)
     = [ContentRequest ''Warsaw'', FullPageRequest ''Warsaw'',
        ContentRequest ''Lazienki_Park'', FullPageRequest ''Lazienki_Park'',
        ContentRequest ''Krakow'', ContentRequest ''Gdansk'']"
  by code_simp

text \<open>
  The recursion is started with an empty visited set, which does not hold the root page
  that the orchestrator has requested before: for the root Poland and its child Warsaw,
  which links back to Poland, the run two levels deep requests Poland again.
\<close>

lemma root_requested_again:
  "fetched (fetch_linked_pages_recursive link_back_web 2 0 [''Warsaw''] initial_crawl)
     = [ContentRequest ''Warsaw'', FullPageRequest ''Warsaw'',
        ContentRequest ''Poland'', FullPageRequest ''Poland'']"
  by code_simp

text \<open>
  Claim C2. No two fetches of one run should target the same page name, the name taken
  without regard to case and to spaces. The visited set is keyed by the name with each
  space replaced by an underscore and with its case kept, so for the page names Warsaw and
  warsaw one run requests both, each of them twice where the first answer has no
  breadcrumbs. The two names are the same page under the normalisation of the claim, and
  also where the code itself identifies a page: they give the same node id and the same
  file names.
\<close>

theorem fetch_case_variants_both_fetched:
  "fetched (fetch_linked_pages_recursive leaf_pages_web 1 0 [''Warsaw'', ''warsaw''] initial_crawl)
     = [ContentRequest ''Warsaw'', FullPageRequest ''Warsaw'',
        ContentRequest ''warsaw'', FullPageRequest ''warsaw'']
   \<and> spec_page_key ''Warsaw'' = spec_page_key ''warsaw''
   \<and> query_id_key ''Warsaw'' = query_id_key ''warsaw''
   \<and> query_safe ''Warsaw'' = query_safe ''warsaw''"
  by code_simp

section \<open>Properties of the heading search\<close>

text \<open>
  Claim C3. The specification gives \<^verbatim>\<open>extractSection\<close> a text match that ends at a word
  boundary, so that See does not match Seeing, and \<^verbatim>\<open>_extract_links_from_section\<close>
  has this match. \<^verbatim>\<open>_extract_section_content\<close> instead accepts a heading whose text
  contains the title anywhere: on a page whose only heading is Seeing, the section See is
  the content under Seeing, where the heading search of the link extractor finds nothing.
\<close>

theorem extract_section_content_matches_inside_word:
  "extract_section_content seeing_page ''See'' = Inr [Text ''Seeing is believing.'']
   \<and> links_section_heading seeing_page ''See'' = None"
  by code_simp

end
